theory Spec2Isabelle
  imports Main
begin

section \<open>Python values used by the program\<close>

text \<open>
  The exceptions the modelled code can raise. \<open>FormatError\<close> and \<open>InputError\<close> are the two
  classes of \<^verbatim>\<open>exceptions.py\<close>; the others are the built-in exceptions raised by list and
  string indexing, \<^verbatim>\<open>str.index\<close>, \<^verbatim>\<open>str.split\<close>, \<^verbatim>\<open>list.remove\<close>, dictionary lookup and the
  read of a local variable that was never assigned.
  A function that can raise returns \<open>error + 'a\<close>, with \<open>Inl\<close> for the exception.
\<close>

datatype error = FormatError | InputError | IndexError | ValueError | KeyError | UnboundLocalError

text \<open>
  Characters are modelled as 8-bit \<^typ>\<open>char\<close>, Python strings as \<^typ>\<open>string\<close>.
  \<^verbatim>\<open>s.startswith(sub)\<close>:
\<close>

definition startswith :: "'a list \<Rightarrow> 'a list \<Rightarrow> bool" where
  "startswith s sub = (take (length sub) s = sub)"

text \<open>\<^verbatim>\<open>s.find(sub)\<close> as an option: the least position at which \<open>sub\<close> occurs in \<open>s\<close>.\<close>

fun str_find :: "'a list \<Rightarrow> 'a list \<Rightarrow> nat option" where
  "str_find [] sub = (if sub = [] then Some 0 else None)"
| "str_find (c # cs) sub =
     (if startswith (c # cs) sub then Some 0 else map_option Suc (str_find cs sub))"

text \<open>
  \<^verbatim>\<open>s.index(sub, start, end)\<close> where \<open>end\<close> is \<open>len(s)\<close> and \<open>start\<close> is not negative, the only
  way the program calls it: \<^verbatim>\<open>ValueError\<close> when \<open>sub\<close> does not occur at or after \<open>start\<close>
  (also when \<open>start\<close> is beyond the end of \<open>s\<close>).
\<close>

definition str_index :: "'a list \<Rightarrow> 'a list \<Rightarrow> nat \<Rightarrow> error + nat" where
  "str_index s sub start =
     (if length s < start then Inl ValueError
      else case str_find (drop start s) sub of
             None \<Rightarrow> Inl ValueError
           | Some i \<Rightarrow> Inr (start + i))"

text \<open>
  \<^verbatim>\<open>s.count(sub)\<close>: the number of non-overlapping occurrences, scanning from the left;
  the empty string occurs \<open>len(s) + 1\<close> times.
\<close>

function str_count :: "'a list \<Rightarrow> 'a list \<Rightarrow> nat" where
  "str_count s sub =
     (if sub = [] then length s + 1
      else if s = [] then 0
      else if startswith s sub then 1 + str_count (drop (length sub) s) sub
      else str_count (tl s) sub)"
  by pat_completeness auto
termination
  by (relation "measure (\<lambda>(s, sub). length s)") auto

declare str_count.simps [simp del]

text \<open>\<^verbatim>\<open>sub in s\<close> for strings.\<close>

definition str_contains :: "'a list \<Rightarrow> 'a list \<Rightarrow> bool" where
  "str_contains s sub = (str_find s sub \<noteq> None)"

text \<open>
  \<^verbatim>\<open>s.split(sep)\<close>: \<^verbatim>\<open>ValueError\<close> on an empty separator; otherwise the fragments between
  the non-overlapping occurrences of \<open>sep\<close>, empty fragments included.
\<close>

function split_from :: "'a list \<Rightarrow> 'a list \<Rightarrow> 'a list \<Rightarrow> 'a list list" where
  "split_from sep cur s =
     (if s = [] then [cur]
      else if sep \<noteq> [] \<and> startswith s sep then cur # split_from sep [] (drop (length sep) s)
      else split_from sep (cur @ [hd s]) (tl s))"
  by pat_completeness auto
termination
  by (relation "measure (\<lambda>(sep, cur, s). length s)") auto

declare split_from.simps [simp del]

definition str_split :: "'a list \<Rightarrow> 'a list \<Rightarrow> error + 'a list list" where
  "str_split s sep = (if sep = [] then Inl ValueError else Inr (split_from sep [] s))"

section \<open>\<^verbatim>\<open>block.py\<close>: styled characters and spans\<close>

text \<open>
  A \<^verbatim>\<open>Char\<close> object: the character and the five style attributes read from its run
  (\<open>None\<close> when the character was built without a run). Python compares two \<^verbatim>\<open>Char\<close>
  objects by identity (\<^verbatim>\<open>Char.__eq__\<close> returns \<^verbatim>\<open>other is self\<close>), so the object's identity
  is a field of the model: \<open>ident\<close> is the address of the object, and every construction of
  a \<^verbatim>\<open>Char\<close> takes the next free address.
\<close>

record Char =
  str :: char
  italic :: "bool option"
  bold :: "bool option"
  underline :: "bool option"
  subscript :: "bool option"
  superscript :: "bool option"
  ident :: nat

text \<open>\<^verbatim>\<open>Char(char)\<close>, without a run, allocated at address \<open>a\<close>.\<close>

definition Char_init :: "nat \<Rightarrow> char \<Rightarrow> Char" where
  "Char_init a c =
     \<lparr>str = c, italic = None, bold = None, underline = None, subscript = None,
      superscript = None, ident = a\<rparr>"

text \<open>
  A \<^verbatim>\<open>Block\<close>: the list \<open>chars\<close> and the two flags. \<open>variable\<close> takes the three values
  \<^verbatim>\<open>True\<close>, \<^verbatim>\<open>False\<close> and \<^verbatim>\<open>None\<close> in the program (\<^verbatim>\<open>Block('', variable=None)\<close> in
  \<^verbatim>\<open>splice_blocks\<close>), so it is a \<^typ>\<open>bool option\<close>.
\<close>

record Block =
  chars :: "Char list"
  optional :: bool
  variable :: "bool option"

text \<open>
  \<^verbatim>\<open>Block(text, optional, variable=variable)\<close> for \<open>text\<close> a \<^verbatim>\<open>Block\<close>, a list of \<^verbatim>\<open>Char\<close>
  objects or nothing: the characters are reused.
\<close>

definition Block_init :: "Char list \<Rightarrow> bool \<Rightarrow> bool option \<Rightarrow> Block" where
  "Block_init cs opt var = \<lparr>chars = cs, optional = opt, variable = var\<rparr>"

text \<open>
  \<^verbatim>\<open>Block(text, ...)\<close> for \<open>text\<close> a \<^verbatim>\<open>str\<close>: one new \<^verbatim>\<open>Char\<close> per character, allocated at
  the addresses \<open>a, a + 1, ...\<close>.
\<close>

fun new_chars :: "nat \<Rightarrow> string \<Rightarrow> Char list" where
  "new_chars a [] = []"
| "new_chars a (c # cs) = Char_init a c # new_chars (Suc a) cs"

definition Block_str :: "nat \<Rightarrow> string \<Rightarrow> bool \<Rightarrow> bool option \<Rightarrow> Block" where
  "Block_str a s opt var = Block_init (new_chars a s) opt var"

text \<open>\<^verbatim>\<open>Block.__call__\<close>: the string of the span. \<^verbatim>\<open>Block.__len__\<close> is \<open>length (chars b)\<close>.\<close>

definition call :: "Block \<Rightarrow> string" where
  "call b = map str (chars b)"

text \<open>Truthiness of the flag \<open>variable\<close>: \<^verbatim>\<open>None\<close> and \<^verbatim>\<open>False\<close> are false.\<close>

definition is_variable :: "Block \<Rightarrow> bool" where
  "is_variable b = (variable b = Some True)"

text \<open>\<^verbatim>\<open>Block.__add__\<close> with a \<^verbatim>\<open>Block\<close> operand: \<^verbatim>\<open>Block(new_chars)\<close>, the flags at their defaults.\<close>

definition add :: "Block \<Rightarrow> Block \<Rightarrow> Block" where
  "add self other = Block_init (chars self @ chars other) False (Some False)"

text \<open>\<^verbatim>\<open>Block.__add__\<close> with a \<^verbatim>\<open>str\<close> operand; the new characters are allocated at \<open>a\<close>.\<close>

definition add_str :: "nat \<Rightarrow> Block \<Rightarrow> string \<Rightarrow> Block" where
  "add_str a self other = Block_init (chars self @ new_chars a other) False (Some False)"

text \<open>\<^verbatim>\<open>Block.__radd__\<close> with a \<^verbatim>\<open>str\<close> on the left: \<^verbatim>\<open>Block(other)\<close> extended by \<open>self.chars\<close>.\<close>

definition radd_str :: "nat \<Rightarrow> string \<Rightarrow> Block \<Rightarrow> Block" where
  "radd_str a other self = Block_init (new_chars a other @ chars self) False (Some False)"

text \<open>\<^verbatim>\<open>Block.count\<close> and \<^verbatim>\<open>Block.__contains__\<close> for a string or a \<^verbatim>\<open>Block\<close> (by its string).\<close>

definition count :: "Block \<Rightarrow> string \<Rightarrow> nat" where
  "count self v = str_count (call self) v"

definition contains_str :: "Block \<Rightarrow> string \<Rightarrow> bool" where
  "contains_str self item = (count self item > 0)"

text \<open>\<^verbatim>\<open>Block.index(value, start)\<close> for a string or a \<^verbatim>\<open>Block\<close> (by its string).\<close>

definition index :: "Block \<Rightarrow> string \<Rightarrow> nat \<Rightarrow> error + nat" where
  "index self v start = str_index (call self) v start"

text \<open>
  The loop of \<^verbatim>\<open>Block.split\<close>. The characters still to visit replace the counter \<open>i\<close>;
  \<open>j\<close>, \<open>k\<close>, \<open>_chars\<close> and \<open>texts\<close> are the loop's variables. \<^verbatim>\<open>split_list[j][k]\<close> raises
  \<^verbatim>\<open>IndexError\<close> when \<open>j\<close> is past the last fragment or \<open>k\<close> past the end of fragment \<open>j\<close>.
\<close>

fun split_loop ::
  "string list \<Rightarrow> Char list \<Rightarrow> nat \<Rightarrow> nat \<Rightarrow> Char list \<Rightarrow> Block list \<Rightarrow> error + Block list"
where
  "split_loop split_list [] j k cs texts = Inr texts"
| "split_loop split_list (c # rest) j k cs texts =
     (if length split_list \<le> j then Inl IndexError
      else if length (split_list ! j) \<le> k then Inl IndexError
      else
        let cs1 = (if str c = split_list ! j ! k then cs @ [c] else cs);
            k1 = (if str c = split_list ! j ! k then k + 1 else k)
        in if k1 = length (split_list ! j)
           then split_loop split_list rest (j + 1) 0 [] (texts @ [Block_init cs1 False (Some False)])
           else split_loop split_list rest j k1 cs1 texts)"

definition split :: "Block \<Rightarrow> Block \<Rightarrow> error + Block list" where
  "split self delimiter =
     (case str_split (call self) (call delimiter) of
        Inl e \<Rightarrow> Inl e
      | Inr split_list \<Rightarrow> split_loop split_list (chars self) 0 0 [] [])"

section \<open>\<^verbatim>\<open>cues.py\<close>: the recognised variable codes\<close>

text \<open>
  The dictionary \<^verbatim>\<open>CUES\<close>: a key that is absent maps to \<open>None\<close>, a key whose value is
  \<^verbatim>\<open>None\<close> to \<open>Some None\<close>, a key with a list of accepted characters to \<open>Some (Some cs)\<close>.
\<close>

definition CUES :: "string \<Rightarrow> char list option option" where
  "CUES = map_of
     [(''%n'', None),
      (''%s'', None),
      (''%f'', Some ''0123456789.''),
      (''%c'', None),
      (''%i'', Some ''0123456789''),
      (''%m'', Some ''sdtqpxhbrm*''),
      (''%j'', Some ''0123456789. ,''),
      (''%a'', None)]"

section \<open>\<^verbatim>\<open>formatter.py\<close>: template compilation\<close>

text \<open>\<^verbatim>\<open>xs[i]\<close> for a Python integer index: a negative index counts from the end.\<close>

definition getitem :: "'a list \<Rightarrow> int \<Rightarrow> error + 'a" where
  "getitem xs i =
     (if 0 \<le> i \<and> i < int (length xs) then Inr (xs ! nat i)
      else if i < 0 \<and> - int (length xs) \<le> i then Inr (xs ! nat (int (length xs) + i))
      else Inl IndexError)"

text \<open>\<^verbatim>\<open>xs[lo:hi]\<close> for indices that are not negative.\<close>

definition slice :: "'a list \<Rightarrow> nat \<Rightarrow> nat \<Rightarrow> 'a list" where
  "slice xs lo hi = drop lo (take hi xs)"

text \<open>\<^verbatim>\<open>str.lower\<close> on one character (ASCII letters; other characters are unchanged).\<close>

definition lower :: "char \<Rightarrow> char" where
  "lower c =
     (let n = (of_char c :: nat) in if 65 \<le> n \<and> n \<le> 90 then char_of (n + 32) else c)"

text \<open>
  A \<^verbatim>\<open>Section\<close>: the list of spans (the attribute \<^verbatim>\<open>section\<close>, here \<open>sect\<close>) and the set
  \<open>contains\<close>. The other attributes are computed from the list by \<^verbatim>\<open>Section.__init__\<close>, which
  every change of the list runs again, so they are functions of the list.
\<close>

record Section =
  sect :: "Block list"
  contains :: "string set option"

definition Section_init :: "Block list \<Rightarrow> string set option \<Rightarrow> Section" where
  "Section_init bs c = \<lparr>sect = bs, contains = c\<rparr>"

definition Section_str :: "Section \<Rightarrow> string list" where
  "Section_str s = map call (sect s)"

definition constants :: "Section \<Rightarrow> Block list" where
  "constants s = filter (\<lambda>x. \<not> is_variable x) (sect s)"

definition constants_str :: "Section \<Rightarrow> string list" where
  "constants_str s = filter (\<lambda>t. t \<noteq> []) (map call (constants s))"

definition variables :: "Section \<Rightarrow> Block list" where
  "variables s = filter is_variable (sect s)"

definition variables_str :: "Section \<Rightarrow> string list" where
  "variables_str s = filter (\<lambda>t. t \<noteq> []) (map call (variables s))"

definition obligatories :: "Section \<Rightarrow> Block list" where
  "obligatories s = filter (\<lambda>x. \<not> optional x) (sect s)"

definition optionals :: "Section \<Rightarrow> Block list" where
  "optionals s = filter optional (sect s)"

text \<open>
  The loop of \<^verbatim>\<open>Formatter._parse\<close>. \<open>raw\<close> is \<^verbatim>\<open>self._raw_nmr_format\<close>, \<open>a\<close> the next free
  address, then the characters still unparsed and the loop's variables \<open>_text\<close>,
  \<open>_optional\<close> and \<open>list_of_parsed\<close>. The result carries the next free address.
  \<^verbatim>\<open>unparsed[1]\<close> raises \<^verbatim>\<open>IndexError\<close> when \<^verbatim>\<open>%\<close> is the last character.
\<close>

definition flush :: "Char list \<Rightarrow> bool \<Rightarrow> Block list \<Rightarrow> Block list" where
  "flush txt opt lp = (if txt \<noteq> [] then lp @ [Block_init txt opt (Some False)] else lp)"

fun parse_loop ::
  "Block \<Rightarrow> nat \<Rightarrow> Char list \<Rightarrow> Char list \<Rightarrow> bool \<Rightarrow> Block list \<Rightarrow> error + (Block list \<times> nat)"
where
  "parse_loop raw a [] txt opt lp = Inr (flush txt opt lp, a)"
| "parse_loop raw a [c] txt opt lp =
     (if str c \<noteq> CHR ''%'' \<and> str c \<noteq> CHR ''*'' then parse_loop raw a [] (txt @ [c]) opt lp
      else if str c = CHR ''%'' then Inl IndexError
      else parse_loop raw a [] [] (\<not> opt)
             (flush txt opt lp @ [Block_init [] (\<not> opt) (Some False)]))"
| "parse_loop raw a (c # d # rest) txt opt lp =
     (if str c \<noteq> CHR ''%'' \<and> str c \<noteq> CHR ''*''
      then parse_loop raw a (d # rest) (txt @ [c]) opt lp
      else if str c = CHR ''%'' then
        (let key = [CHR ''%'', lower (str d)]; lp1 = flush txt opt lp
         in if count raw key > 1 then Inl FormatError
            else if lp1 \<noteq> [] \<and> str_contains (call (last lp1)) ''%'' then Inl FormatError
            else if CUES key = None then Inl FormatError
            else parse_loop raw (a + 2) rest [] opt (lp1 @ [Block_str a key opt (Some True)]))
      else parse_loop raw a (d # rest) [] (\<not> opt)
             (flush txt opt lp @ [Block_init [] (\<not> opt) (Some False)]))"

definition parse :: "Block \<Rightarrow> nat \<Rightarrow> Block \<Rightarrow> error + (Block list \<times> nat)" where
  "parse raw a unparsed = parse_loop raw a (chars unparsed) [] False []"

text \<open>
  \<^verbatim>\<open>Section.splice_blocks\<close>. The first loop visits the indices in order; the list keeps its
  length, and step \<open>i\<close> reads the spans at \<open>i\<close> and \<open>i - 1\<close> of the list as the earlier steps
  left it. The second loop visits a copy and removes from the list the first span equal to
  each span that equals \<^verbatim>\<open>Block('', variable=None)\<close>.
\<close>

definition splice_step :: "nat \<Rightarrow> Block list \<Rightarrow> Block list" where
  "splice_step i s =
     (if 1 \<le> i \<and> variable (s ! i) = variable (s ! (i - 1))
      then (s[i - 1 := add (s ! (i - 1)) (s ! i)])[i := Block_init [] False None]
      else s)"

definition splice_remove :: "Block \<Rightarrow> Block list \<Rightarrow> Block list" where
  "splice_remove item s = (if item = Block_init [] False None then remove1 item s else s)"

definition splice_blocks :: "Section \<Rightarrow> Section" where
  "splice_blocks self =
     (let s1 = fold splice_step [0..<length (sect self)] (sect self);
          s2 = fold splice_remove s1 s1
      in Section_init s2 (contains self))"

text \<open>The first loop of \<^verbatim>\<open>Hypotheses.__init__\<close>: the pieces between the empty spans.\<close>

fun pieces_loop :: "Block list \<Rightarrow> Block list list \<Rightarrow> Block list \<Rightarrow> Block list list" where
  "pieces_loop [] ps p = (if p \<noteq> [] then ps @ [p] else ps)"
| "pieces_loop (b # bs) ps p =
     (if call b = [] then pieces_loop bs (ps @ [p]) [] else pieces_loop bs ps (p @ [b]))"

text \<open>\<^verbatim>\<open>xs[1::2]\<close>: the items at the odd indices.\<close>

fun odd_items :: "'a list \<Rightarrow> 'a list" where
  "odd_items (x # y # r) = y # odd_items r"
| "odd_items r = []"

text \<open>
  \<^verbatim>\<open>find_combinations\<close>. \<open>knock_out\<close> is the loop that removes from \<open>temp_list\<close> the items
  whose index is in \<open>leftout\<close> (\<^verbatim>\<open>list.remove\<close> raises \<^verbatim>\<open>ValueError\<close> on an absent item);
  \<open>find_gap\<close> is the search of the \<^verbatim>\<open>for\<close> loop over \<open>leftout\<close> for the first index to
  decrement; \<open>next_leftout\<close> is the update of \<open>leftout\<close> at the end of one iteration,
  \<open>None\<close> when the iteration was the last (\<open>finished\<close> stays true).
\<close>

fun knock_out :: "'a list \<Rightarrow> int list \<Rightarrow> nat \<Rightarrow> 'a list \<Rightarrow> error + 'a list" where
  "knock_out [] leftout i temp_list = Inr temp_list"
| "knock_out (item # rest) leftout i temp_list =
     (if int i \<in> set leftout
      then (if item \<in> set temp_list then knock_out rest leftout (Suc i) (remove1 item temp_list)
            else Inl ValueError)
      else knock_out rest leftout (Suc i) temp_list)"

fun find_gap :: "int list \<Rightarrow> nat \<Rightarrow> int list \<Rightarrow> nat option" where
  "find_gap leftout i [] = None"
| "find_gap leftout i (item # rest) =
     (if item - 1 \<notin> set leftout \<and> i \<noteq> 0 then Some i else find_gap leftout (Suc i) rest)"

definition reset_below :: "nat \<Rightarrow> int list \<Rightarrow> int list" where
  "reset_below idx leftout = leftout[idx := leftout ! (idx + 1) - 1]"

definition next_leftout :: "int list \<Rightarrow> int list option" where
  "next_leftout leftout =
     (if leftout ! 0 > 0 then Some (leftout[0 := leftout ! 0 - 1])
      else case find_gap leftout 0 leftout of
             None \<Rightarrow> None
           | Some i \<Rightarrow> Some (fold reset_below (rev [0..<i]) (leftout[i := leftout ! i - 1])))"

partial_function (option) combinations_loop ::
  "'a list \<Rightarrow> int list \<Rightarrow> 'a list list \<Rightarrow> (error + 'a list list) option"
where
  "combinations_loop a_list leftout combinations =
     (case knock_out a_list leftout 0 a_list of
        Inl e \<Rightarrow> Some (Inl e)
      | Inr temp_list \<Rightarrow>
          (case next_leftout leftout of
             None \<Rightarrow> Some (Inr (combinations @ [temp_list]))
           | Some leftout1 \<Rightarrow> combinations_loop a_list leftout1 (combinations @ [temp_list])))"

declare combinations_loop.simps [code]

definition find_combinations :: "'a list \<Rightarrow> nat \<Rightarrow> (error + 'a list list) option" where
  "find_combinations a_list n =
     (let leftout = map int [n..<length a_list]
      in if leftout = [] then Some (Inr [a_list]) else combinations_loop a_list leftout [])"

text \<open>
  \<^verbatim>\<open>build_hypotheses\<close>: one hypothesis per combination. \<^verbatim>\<open>self._pieces.index(piece)\<close> is the
  first index of a piece equal to \<open>piece\<close>.
\<close>

definition list_index :: "'a list \<Rightarrow> 'a \<Rightarrow> nat" where
  "list_index xs x = length (takeWhile (\<lambda>y. y \<noteq> x) xs)"

definition hypothesis_blocks :: "Block list list \<Rightarrow> Block list list \<Rightarrow> Block list" where
  "hypothesis_blocks pieces combination =
     concat (map (\<lambda>piece.
        if list_index pieces piece mod 2 = 0 then piece
        else if piece \<in> set combination then piece else []) pieces)"

definition build_hypothesis :: "Block list list \<Rightarrow> Block list list \<Rightarrow> Section" where
  "build_hypothesis pieces combination =
     (let h = hypothesis_blocks pieces combination
      in splice_blocks (Section_init h (Some (set (map call (filter is_variable h))))))"

definition build_hypotheses :: "Block list list \<Rightarrow> nat \<Rightarrow> (error + Section list) option" where
  "build_hypotheses pieces n =
     (case find_combinations (odd_items pieces) n of
        None \<Rightarrow> None
      | Some (Inl e) \<Rightarrow> Some (Inl e)
      | Some (Inr combinations) \<Rightarrow> Some (Inr (map (build_hypothesis pieces) combinations)))"

text \<open>
  \<^verbatim>\<open>Hypotheses.__init__\<close>: the groups for \<open>n = 0, 1, ...\<close> are appended in turn
  (\<open>build_groups\<close>), and the list of groups is reversed at the end.
\<close>

fun build_groups :: "Block list list \<Rightarrow> nat list \<Rightarrow> (error + Section list list) option" where
  "build_groups pieces [] = Some (Inr [])"
| "build_groups pieces (n # ns) =
     (case build_hypotheses pieces n of
        None \<Rightarrow> None
      | Some (Inl e) \<Rightarrow> Some (Inl e)
      | Some (Inr g) \<Rightarrow>
          (case build_groups pieces ns of
             None \<Rightarrow> None
           | Some (Inl e) \<Rightarrow> Some (Inl e)
           | Some (Inr gs) \<Rightarrow> Some (Inr (g # gs))))"

definition Hypotheses_pieces :: "Section \<Rightarrow> Block list list" where
  "Hypotheses_pieces signal = pieces_loop (sect signal) [] []"

definition Hypotheses_init :: "Section \<Rightarrow> (error + Section list list) option" where
  "Hypotheses_init signal =
     (let pieces = Hypotheses_pieces signal
      in case build_groups pieces [0..<length (odd_items pieces) + 1] of
           None \<Rightarrow> None
         | Some (Inl e) \<Rightarrow> Some (Inl e)
         | Some (Inr gs) \<Rightarrow> Some (Inr (rev gs)))"

text \<open>
  A \<^verbatim>\<open>Formatter\<close>: the attributes \<^verbatim>\<open>head\<close>, \<^verbatim>\<open>signals\<close>, \<^verbatim>\<open>hypotheses\<close>, \<^verbatim>\<open>delimiter\<close> and
  \<^verbatim>\<open>end\<close> (here \<open>fend\<close>).
\<close>

record Formatter =
  head :: Section
  signals :: Section
  hypotheses :: "Section list list"
  delimiter :: Block
  fend :: Block

text \<open>
  \<^verbatim>\<open>Formatter.__init__\<close> on the span \<open>raw\<close>, with \<open>a\<close> the next free address. The checks
  come in the order of the source: the number of slashes, the parity of the asterisks, the
  character before the first slash (\<^verbatim>\<open>raw[i - 1]\<close>, the last character when \<open>i = 0\<close>).
  The value is \<open>None\<close> when \<^verbatim>\<open>find_combinations\<close> does not return.
\<close>

definition Formatter_init :: "Block \<Rightarrow> nat \<Rightarrow> (error + Formatter) option" where
  "Formatter_init raw a =
     (if count raw ''/'' \<noteq> 3 then Some (Inl FormatError)
      else if count raw ''*'' mod 2 \<noteq> 0 then Some (Inl FormatError)
      else case index raw ''/'' 0 of Inl e \<Rightarrow> Some (Inl e) | Inr repeat_i \<Rightarrow>
        (case index raw ''/'' (repeat_i + 1) of Inl e \<Rightarrow> Some (Inl e) | Inr repeat_i2 \<Rightarrow>
          (case str_index (rev (call raw)) ''/'' 0 of Inl e \<Rightarrow> Some (Inl e) | Inr r \<Rightarrow>
            (let repeat_i3 = int (length (chars raw)) - 1 - int r
             in case getitem (chars raw) (int repeat_i - 1) of
                  Inl e \<Rightarrow> Some (Inl e)
                | Inr c \<Rightarrow>
                    if str c \<noteq> CHR '' '' then Some (Inl FormatError)
                    else
                      (let h = Block_init (slice (chars raw) 0 repeat_i) False (Some False);
                           s = Block_init (slice (chars raw) (repeat_i + 1) repeat_i2)
                                 False (Some False);
                           d = Block_init (slice (chars raw) (repeat_i2 + 1) (nat repeat_i3))
                                 False (Some False);
                           e = (if repeat_i3 \<noteq> int (length (chars raw)) - 1
                                then Block_init [last (chars raw)] False (Some False)
                                else Block_init [] False (Some False))
                       in case parse raw a h of
                            Inl er \<Rightarrow> Some (Inl er)
                          | Inr (hs, a1) \<Rightarrow>
                              (case parse raw a1 s of
                                 Inl er \<Rightarrow> Some (Inl er)
                               | Inr (ss, a2) \<Rightarrow>
                                   (case Hypotheses_init (Section_init ss None) of
                                      None \<Rightarrow> None
                                    | Some (Inl er) \<Rightarrow> Some (Inl er)
                                    | Some (Inr hyps) \<Rightarrow>
                                        Some (Inr \<lparr>head = Section_init hs None,
                                                   signals = Section_init ss None,
                                                   hypotheses = hyps,
                                                   delimiter = d, fend = e\<rparr>))))))))"

section \<open>\<^verbatim>\<open>signal.py\<close>: one record\<close>

record Signal =
  hypothesis :: Section
  chemshift :: "Block option"
  integral :: "Block option"
  multiplicity :: "Block option"
  j_values :: "Block option"
  assignment :: "Block option"

text \<open>
  \<^verbatim>\<open>signal_variables[variables_str.index(key)] if key in variables_str else default\<close>, the
  expression that fills each attribute of a \<^verbatim>\<open>Signal\<close>.
\<close>

definition lookup_variable ::
  "Block list \<Rightarrow> Section \<Rightarrow> string \<Rightarrow> Block option \<Rightarrow> error + Block option"
where
  "lookup_variable signal_variables h key dflt =
     (if key \<in> set (variables_str h)
      then (case getitem signal_variables (int (list_index (variables_str h) key)) of
              Inl e \<Rightarrow> Inl e
            | Inr b \<Rightarrow> Inr (Some b))
      else Inr dflt)"

definition Signal_init :: "Block list \<Rightarrow> Section \<Rightarrow> error + Signal" where
  "Signal_init signal_variables h =
     (case lookup_variable signal_variables h ''%c'' None of Inl e \<Rightarrow> Inl e | Inr c \<Rightarrow>
      (case lookup_variable signal_variables h ''%i'' None of Inl e \<Rightarrow> Inl e | Inr i \<Rightarrow>
       (case lookup_variable signal_variables h ''%m'' None of Inl e \<Rightarrow> Inl e | Inr m \<Rightarrow>
        (case lookup_variable signal_variables h ''%j'' None of Inl e \<Rightarrow> Inl e | Inr j \<Rightarrow>
         (case lookup_variable signal_variables h ''%a''
                 (Some (Block_init [] False (Some False))) of
            Inl e \<Rightarrow> Inl e
          | Inr a \<Rightarrow>
              Inr \<lparr>hypothesis = h, chemshift = c, integral = i, multiplicity = m,
                   j_values = j, assignment = a\<rparr>)))))"

section \<open>\<^verbatim>\<open>spectrum.py\<close>: matching, field extraction and record splitting\<close>

subsection \<open>\<^verbatim>\<open>Spectrum.match_hypothesis\<close>\<close>

text \<open>
  The loop over \<^verbatim>\<open>hypothesis.constants_str\<close>: \<open>Inr None\<close> when a constant does not occur
  (\<^verbatim>\<open>next_ = True\<close>), otherwise the list \<open>counts\<close>. \<open>_temp\<close> is clipped to start at the
  first occurrence of each constant.
\<close>

fun count_constants :: "Block \<Rightarrow> string list \<Rightarrow> nat list \<Rightarrow> error + nat list option" where
  "count_constants temp [] counts = Inr (Some counts)"
| "count_constants temp (block # rest) counts =
     (let c = count temp block
      in if c = 0 then Inr None
         else case index temp block 0 of
                Inl e \<Rightarrow> Inl e
              | Inr i \<Rightarrow>
                  count_constants (Block_init (drop i (chars temp)) False (Some False)) rest
                    (counts @ [c]))"

text \<open>
  \<^verbatim>\<open>for count in counts: score += count - 1; scores.append(score)\<close>: the \<^verbatim>\<open>append\<close> is in the
  body of the loop, so every count adds one entry to \<open>scores\<close>.
\<close>

fun score_loop :: "int \<Rightarrow> nat list \<Rightarrow> int list \<Rightarrow> int list" where
  "score_loop score [] scores = scores"
| "score_loop score (c # cs) scores =
     score_loop (score + int c - 1) cs (scores @ [score + int c - 1])"

text \<open>
  The loop over one hypothesis set: it returns a hypothesis from inside the loop, or ends
  with the list \<open>scores\<close>. \<^verbatim>\<open>set(counts) == {1}\<close> holds when \<open>counts\<close> is not empty and all
  its members are 1.
\<close>

datatype group_result = Return Section | Scores "int list"

fun match_group :: "Block \<Rightarrow> Section list \<Rightarrow> int list \<Rightarrow> error + group_result" where
  "match_group signal [] scores = Inr (Scores scores)"
| "match_group signal (h # rest) scores =
     (if constants h = [] then Inr (Return h)
      else case count_constants (Block_init (chars signal) False (Some False))
                  (constants_str h) [] of
             Inl e \<Rightarrow> Inl e
           | Inr None \<Rightarrow> match_group signal rest (scores @ [- 1])
           | Inr (Some counts) \<Rightarrow>
               if counts \<noteq> [] \<and> list_all (\<lambda>c. c = 1) counts then Inr (Return h)
               else match_group signal rest (score_loop 0 counts scores))"

text \<open>\<^verbatim>\<open>min(xs)\<close> on a list that is not empty.\<close>

definition py_min :: "int list \<Rightarrow> int" where
  "py_min xs = fold min (tl xs) (hd xs)"

fun match_sets :: "Block \<Rightarrow> Section list list \<Rightarrow> error + Section" where
  "match_sets signal [] = Inl InputError"
| "match_sets signal (hypothesis_set # rest) =
     (case match_group signal hypothesis_set [] of
        Inl e \<Rightarrow> Inl e
      | Inr (Return h) \<Rightarrow> Inr h
      | Inr (Scores scores) \<Rightarrow>
          (let scores1 = filter (\<lambda>score. 0 \<le> score) scores
           in if scores1 = [] then match_sets signal rest
              else getitem hypothesis_set (int (list_index scores (py_min scores1)))))"

definition match_hypothesis :: "Formatter \<Rightarrow> Block \<Rightarrow> error + Section" where
  "match_hypothesis fm signal = match_sets signal (hypotheses fm)"

subsection \<open>\<^verbatim>\<open>Spectrum.parse_signal\<close>\<close>

text \<open>\<^verbatim>\<open>Block.lstrip\<close>: one leading space is deleted.\<close>

definition lstrip :: "Char list \<Rightarrow> Char list" where
  "lstrip cs = (if cs \<noteq> [] \<and> str (hd cs) = CHR '' '' then tl cs else cs)"

text \<open>
  The \<^verbatim>\<open>while working_slice\<close> loop: the characters accepted by the cue are moved to
  \<open>appendix\<close>; at a rejected character the loop ends when the slice starts there with the
  current constant \<open>block\<close>, and raises \<^verbatim>\<open>InputError\<close> otherwise.
\<close>

fun cue_loop :: "char list \<Rightarrow> string \<Rightarrow> Char list \<Rightarrow> Char list \<Rightarrow> error + Char list" where
  "cue_loop cue block [] appendix = Inr appendix"
| "cue_loop cue block (c # ws) appendix =
     (if str c \<in> set cue then cue_loop cue block ws (appendix @ [c])
      else if contains_str (Block_init (take (length block) (c # ws)) False (Some False)) block
      then Inr appendix
      else Inl InputError)"

text \<open>
  The field read from a working slice that is not empty: the cue of the variable at
  position \<open>len(_signal_variables)\<close> of the hypothesis decides. \<^verbatim>\<open>hypothesis.variables[n]\<close>
  raises \<^verbatim>\<open>IndexError\<close> and \<^verbatim>\<open>CUES[key]\<close> raises \<^verbatim>\<open>KeyError\<close>.
\<close>

definition read_field :: "Section \<Rightarrow> nat \<Rightarrow> string \<Rightarrow> Char list \<Rightarrow> error + Block" where
  "read_field h n block working_slice =
     (case getitem (variables h) (int n) of
        Inl e \<Rightarrow> Inl e
      | Inr v \<Rightarrow>
          (case CUES (call v) of
             None \<Rightarrow> Inl KeyError
           | Some None \<Rightarrow> Inr (Block_init working_slice False (Some False))
           | Some (Some cue) \<Rightarrow>
               (case cue_loop cue block working_slice [] of
                  Inl e \<Rightarrow> Inl e
                | Inr appendix \<Rightarrow> Inr (Block_init appendix False (Some False)))))"

text \<open>
  The loop over \<^verbatim>\<open>hypothesis.constants_str\<close>. The constants still to visit replace the
  counter \<open>i\<close> (\<open>i < len(constants_str) - 1\<close> when a constant follows the current one).
  \<open>appendix\<close> is \<open>None\<close> until the first field is read: the source reads it after every
  constant, also when the working slice was empty, and Python raises
  \<^verbatim>\<open>UnboundLocalError\<close> when it was never assigned.
\<close>

fun signal_loop ::
  "Section \<Rightarrow> string list \<Rightarrow> Block \<Rightarrow> Block list \<Rightarrow> Block option \<Rightarrow> error + Block list"
where
  "signal_loop h [] signal signal_variables appendix = Inr signal_variables"
| "signal_loop h (block # rest) signal signal_variables appendix =
     (case index signal block 0 of Inl e \<Rightarrow> Inl e | Inr temp_block_i \<Rightarrow>
      (case (if rest \<noteq> []
             then (case index signal (hd rest) (temp_block_i + length block) of
                     Inl e \<Rightarrow> Inl e
                   | Inr j \<Rightarrow> Inr (take j (chars signal)))
             else Inr (chars signal)) of
         Inl e \<Rightarrow> Inl e
       | Inr sliced_list \<Rightarrow>
           (case str_index (map str (rev sliced_list)) (rev block) 0 of
              Inl e \<Rightarrow> Inl e
            | Inr block_i \<Rightarrow>
                (let true_block_i = length sliced_list - block_i - length block;
                     working_slice = lstrip (take true_block_i (chars signal))
                 in if working_slice \<noteq> []
                    then (case read_field h (length signal_variables) block working_slice of
                            Inl e \<Rightarrow> Inl e
                          | Inr ap \<Rightarrow>
                              signal_loop h rest
                                (Block_init (drop (length (chars ap) + length block) (chars signal))
                                   False (Some False))
                                (signal_variables @ [ap]) (Some ap))
                    else (case appendix of
                            None \<Rightarrow> Inl UnboundLocalError
                          | Some ap \<Rightarrow>
                              signal_loop h rest
                                (Block_init (drop (length (chars ap) + length block) (chars signal))
                                   False (Some False))
                                signal_variables (Some ap))))))"

definition parse_signal :: "Block \<Rightarrow> Section \<Rightarrow> error + Signal" where
  "parse_signal signal h =
     (if length (variables h) \<noteq> 0 \<and> constants h = [] then Signal_init [signal] h
      else case signal_loop h (constants_str h) signal [] None of
             Inl e \<Rightarrow> Inl e
           | Inr signal_variables \<Rightarrow> Signal_init signal_variables h)"

subsection \<open>\<^verbatim>\<open>Spectrum.complex_parse_into_signals\<close>\<close>

text \<open>
  The two searches for the anchors. \<open>cs\<close> is \<^verbatim>\<open>self.formatter.signals.constants\<close>. In the
  second loop \<open>i\<close> is negative, and \<^verbatim>\<open>constants[i]\<close> is read only when \<open>-len(constants) \<le> i\<close>;
  \<^verbatim>\<open>constants.index(x)\<close> is the first index of a span equal to \<open>x\<close>.
\<close>

function l_anchor_loop :: "Block list \<Rightarrow> Block \<Rightarrow> Block \<Rightarrow> nat \<Rightarrow> Block" where
  "l_anchor_loop cs text l_anchor i =
     (if \<not> contains_str text (call l_anchor) \<and> i < length cs
      then l_anchor_loop cs text (cs ! i) (i + 1)
      else l_anchor)"
  by pat_completeness auto
termination
  by (relation "measure (\<lambda>(cs, text, l_anchor, i). length cs - i)") auto

declare l_anchor_loop.simps [simp del]

function r_anchor_loop :: "Block list \<Rightarrow> Block \<Rightarrow> Block \<Rightarrow> Block \<Rightarrow> int \<Rightarrow> Block" where
  "r_anchor_loop cs text l_anchor r_anchor i =
     (if \<not> contains_str text (call r_anchor) \<and> - int (length cs) \<le> i
         \<and> list_index cs l_anchor \<le> list_index cs r_anchor
      then r_anchor_loop cs text l_anchor (cs ! nat (int (length cs) + i)) (i - 1)
      else r_anchor)"
  by pat_completeness auto
termination
  by (relation "measure (\<lambda>(cs, text, l_anchor, r_anchor, i). nat (int (length cs) + i + 1))")
    auto

declare r_anchor_loop.simps [simp del]

text \<open>
  One pass of the inner \<^verbatim>\<open>while\<close> loop up to the slice that is appended to \<open>_signals\<close>:
  the positions of the anchors, the left margin \<open>_l_index\<close> (0 for \<^verbatim>\<open>None\<close>) and the right
  margin \<open>_r_index\<close> (the length of the text for \<^verbatim>\<open>None\<close>). Every \<^verbatim>\<open>index\<close> can raise
  \<^verbatim>\<open>ValueError\<close>; \<^verbatim>\<open>self.text[::-1]\<close> is the reversed text.
\<close>

definition cut_signal :: "Block \<Rightarrow> Block \<Rightarrow> Block \<Rightarrow> Block \<Rightarrow> error + Block" where
  "cut_signal l_anchor r_anchor dl text =
     (case (if l_anchor \<noteq> dl then index text (call l_anchor) 0
            else index text (call r_anchor) 0) of
        Inl e \<Rightarrow> Inl e
      | Inr l_anch_index \<Rightarrow>
     (case (if r_anchor \<noteq> dl then index text (call r_anchor) 0
            else index text (call l_anchor) 0) of
        Inl e \<Rightarrow> Inl e
      | Inr r_anch_index \<Rightarrow>
     (case index text (call dl) 0 of
        Inl e \<Rightarrow> Inl e
      | Inr d \<Rightarrow>
     (case (if d < l_anch_index
            then (case str_index (rev (call text)) (call l_anchor) 0 of
                    Inl e \<Rightarrow> Inl e
                  | Inr p \<Rightarrow>
                      (case str_index (rev (call text)) (call dl) p of
                         Inl e \<Rightarrow> Inl e
                       | Inr q \<Rightarrow> Inr (length (chars text) - q)))
            else Inr 0) of
        Inl e \<Rightarrow> Inl e
      | Inr l_index \<Rightarrow>
     (case (if contains_str
                 (Block_init (drop (r_anch_index + length (chars r_anchor)) (chars text))
                    False (Some False)) (call dl)
            then index text (call dl) (r_anch_index + length (chars r_anchor))
            else Inr (length (chars text))) of
        Inl e \<Rightarrow> Inl e
      | Inr r_index \<Rightarrow>
          Inr (Block_init (slice (chars text) l_index r_index) False (Some False)))))))"

text \<open>
  The inner \<^verbatim>\<open>while\<close> loop. It ends with the remaining text, the list \<open>_signals\<close> and the
  flag \<open>finished\<close>, which the progress check \<^verbatim>\<open>self.text == text_\<close> sets. \<open>text_\<close> is the
  copy \<^verbatim>\<open>self.text[:]\<close>, a span with the same characters and the default flags.
\<close>

partial_function (option) cut_loop ::
  "Block \<Rightarrow> Block \<Rightarrow> Block \<Rightarrow> Block \<Rightarrow> Block list \<Rightarrow> (error + Block \<times> Block list \<times> bool) option"
where
  "cut_loop l_anchor r_anchor dl text sigs =
     (if contains_str text (call l_anchor) \<and> contains_str text (call r_anchor)
         \<and> contains_str text (call dl)
      then (case cut_signal l_anchor r_anchor dl text of
              Inl e \<Rightarrow> Some (Inl e)
            | Inr sg \<Rightarrow>
                (let text1 = Block_init (drop (length (chars sg) + length (chars dl)) (chars text))
                               False (Some False)
                 in if text1 = Block_init (chars text) False (Some False)
                    then Some (Inr (text1, sigs @ [sg], True))
                    else cut_loop l_anchor r_anchor dl text1 (sigs @ [sg])))
      else Some (Inr (text, sigs, False)))"

declare cut_loop.simps [code]

text \<open>
  The outer loop \<^verbatim>\<open>while not finished and self.text\<close>, with the state \<open>self.text\<close>,
  \<open>_signals\<close> and \<open>finished\<close>. \<^verbatim>\<open>constants[0]\<close> and \<^verbatim>\<open>constants[-1]\<close> raise \<^verbatim>\<open>IndexError\<close>
  when the signal template has no constant span.
\<close>

partial_function (option) complex_loop ::
  "Formatter \<Rightarrow> Block \<Rightarrow> Block \<Rightarrow> Block list \<Rightarrow> bool \<Rightarrow> (error + Block list) option"
where
  "complex_loop fm dl text sigs finished =
     (if \<not> finished \<and> chars text \<noteq> []
      then
        (case getitem (constants (signals fm)) 0 of
           Inl e \<Rightarrow> Some (Inl e)
         | Inr l0 \<Rightarrow>
        (case getitem (constants (signals fm)) (- 1) of
           Inl e \<Rightarrow> Some (Inl e)
         | Inr r0 \<Rightarrow>
        (let l_anchor = l_anchor_loop (constants (signals fm)) text l0 1;
             r_anchor = r_anchor_loop (constants (signals fm)) text l_anchor r0 (- 2)
         in if (\<not> contains_str text (call l_anchor) \<and> \<not> contains_str text (call r_anchor))
               \<or> (l_anchor = dl \<and> r_anchor = dl)
               \<or> \<not> str_contains (call text) (call dl)
            then (case split text dl of
                    Inl e \<Rightarrow> Some (Inl e)
                  | Inr ss \<Rightarrow> complex_loop fm dl text (sigs @ ss) True)
            else (case cut_loop l_anchor r_anchor dl text sigs of
                    None \<Rightarrow> None
                  | Some (Inl e) \<Rightarrow> Some (Inl e)
                  | Some (Inr (text1, sigs1, finished1)) \<Rightarrow>
                      complex_loop fm dl text1 sigs1 finished1))))
      else Some (Inr sigs))"

declare complex_loop.simps [code]

definition complex_parse_into_signals ::
  "Formatter \<Rightarrow> Block \<Rightarrow> Block \<Rightarrow> (error + Block list) option"
where
  "complex_parse_into_signals fm dl text = complex_loop fm dl text [] False"

subsection \<open>\<^verbatim>\<open>Spectrum.parse_signals\<close>\<close>

text \<open>
  The delimiter used for splitting, with the next free address: the string of the last
  span of the signal template is put before the delimiter of the template when that span
  is neither variable nor optional (\<^verbatim>\<open>str + Block\<close> is \<^verbatim>\<open>Block.__radd__\<close>).
\<close>

definition effective_delimiter :: "Formatter \<Rightarrow> nat \<Rightarrow> error + Block \<times> nat" where
  "effective_delimiter fm a =
     (case getitem (sect (signals fm)) (- 1) of
        Inl e \<Rightarrow> Inl e
      | Inr b \<Rightarrow>
          if \<not> is_variable b \<and> \<not> optional b
          then Inr (radd_str a (call b) (delimiter fm), a + length (call b))
          else Inr (delimiter fm, a))"

text \<open>
  The test of the conditional expression that reattaches the last constant, on the
  characters \<open>s\<close> of the signal after \<^verbatim>\<open>pop\<close>. It is evaluated when \<open>constants\<close> and
  \<open>section\<close> are not empty; \<^verbatim>\<open>constants_str[-1]\<close> and \<^verbatim>\<open>signal[-1]\<close> can raise \<^verbatim>\<open>IndexError\<close>.
\<close>

definition reattach :: "Formatter \<Rightarrow> Char list \<Rightarrow> error + bool" where
  "reattach fm s =
     (if optional (last (constants (signals fm))) then Inr False
      else if last (constants (signals fm)) \<noteq> last (sect (signals fm)) then Inr False
      else case getitem (constants_str (signals fm)) (- 1) of
             Inl e \<Rightarrow> Inl e
           | Inr t \<Rightarrow>
               (case getitem s (- 1) of
                  Inl e \<Rightarrow> Inl e
                | Inr c \<Rightarrow> Inr (t \<noteq> [str c])))"

text \<open>
  The body of the loop over the slices of the direct split: \<^verbatim>\<open>pop\<close> when the last character
  is in the string of \<^verbatim>\<open>end\<close>, then \<^verbatim>\<open>_signals[i] += ...\<close>, which builds a new span
  (\<^verbatim>\<open>Block.__add__\<close> with a string) also when the string added is empty.
\<close>

definition finish_signal :: "Formatter \<Rightarrow> nat \<Rightarrow> Block \<Rightarrow> error + Block \<times> nat" where
  "finish_signal fm a signal =
     (case getitem (chars signal) (- 1) of
        Inl e \<Rightarrow> Inl e
      | Inr c \<Rightarrow>
          (let s = (if str_contains (call (fend fm)) [str c] then butlast (chars signal)
                    else chars signal);
               popped = Block_init s (optional signal) (variable signal)
           in if constants (signals fm) \<noteq> [] \<and> sect (signals fm) \<noteq> []
              then (case reattach fm s of
                      Inl e \<Rightarrow> Inl e
                    | Inr True \<Rightarrow>
                        Inr (add_str a popped (last (constants_str (signals fm))),
                             a + length (last (constants_str (signals fm))))
                    | Inr False \<Rightarrow> Inr (add_str a popped [], a))
              else Inr (popped, a)))"

fun finish_signals :: "Formatter \<Rightarrow> nat \<Rightarrow> Block list \<Rightarrow> error + Block list" where
  "finish_signals fm a [] = Inr []"
| "finish_signals fm a (signal # rest) =
     (case finish_signal fm a signal of
        Inl e \<Rightarrow> Inl e
      | Inr (signal1, a1) \<Rightarrow>
          (case finish_signals fm a1 rest of
             Inl e \<Rightarrow> Inl e
           | Inr rest1 \<Rightarrow> Inr (signal1 # rest1)))"

text \<open>
  The first part of \<^verbatim>\<open>parse_signals\<close>, which builds the list \<open>_signals\<close> of record spans from
  \<open>self.text\<close>: the direct split when the string of the fullest hypothesis does not
  contain the delimiter, \<^verbatim>\<open>complex_parse_into_signals\<close> otherwise.
\<close>

definition split_into_signals :: "Formatter \<Rightarrow> nat \<Rightarrow> Block \<Rightarrow> (error + Block list) option" where
  "split_into_signals fm a text =
     (case effective_delimiter fm a of
        Inl e \<Rightarrow> Some (Inl e)
      | Inr (dl, a1) \<Rightarrow>
     (case getitem (hypotheses fm) 0 of
        Inl e \<Rightarrow> Some (Inl e)
      | Inr hypothesis_set \<Rightarrow>
     (case getitem hypothesis_set 0 of
        Inl e \<Rightarrow> Some (Inl e)
      | Inr h \<Rightarrow>
          if \<not> str_contains (concat (Section_str h)) (call dl)
          then (case split text dl of
                  Inl e \<Rightarrow> Some (Inl e)
                | Inr ss \<Rightarrow> Some (finish_signals fm a1 ss))
          else complex_parse_into_signals fm dl text)))"

text \<open>The second part of \<^verbatim>\<open>parse_signals\<close>: every record span is matched and parsed.\<close>

fun read_signals :: "Formatter \<Rightarrow> Block list \<Rightarrow> error + Signal list" where
  "read_signals fm [] = Inr []"
| "read_signals fm (signal # rest) =
     (case match_hypothesis fm signal of
        Inl e \<Rightarrow> Inl e
      | Inr h \<Rightarrow>
          (case parse_signal signal h of
             Inl e \<Rightarrow> Inl e
           | Inr sg \<Rightarrow>
               (case read_signals fm rest of
                  Inl e \<Rightarrow> Inl e
                | Inr sgs \<Rightarrow> Inr (sg # sgs))))"

definition parse_signals :: "Formatter \<Rightarrow> nat \<Rightarrow> Block \<Rightarrow> (error + Signal list) option" where
  "parse_signals fm a text =
     (case split_into_signals fm a text of
        None \<Rightarrow> None
      | Some (Inl e) \<Rightarrow> Some (Inl e)
      | Some (Inr ss) \<Rightarrow> Some (read_signals fm ss))"


section \<open>Span concatenation\<close>

text \<open>
  C10. For all spans \<open>a\<close> and \<open>b\<close>, the concatenation \<open>a + b\<close> keeps the characters of both
  operands in order, and the result has \<open>optional = False\<close> and \<open>variable = False\<close> whatever
  the flags of the operands are.
\<close>

theorem add_chars_flags:
  "chars (add a b) = chars a @ chars b \<and> call (add a b) = call a @ call b
   \<and> optional (add a b) = False \<and> variable (add a b) = Some False"
  by (simp add: add_def Block_init_def call_def)

section \<open>Span splitting\<close>

text \<open>
  C9. \<^verbatim>\<open>Block.split\<close> on the span \<^verbatim>\<open>"a;"\<close> with the delimiter \<^verbatim>\<open>";"\<close>: the string splits into
  the fragments \<^verbatim>\<open>"a"\<close> and \<^verbatim>\<open>""\<close>, and the loop reads character 0 of the empty fragment,
  which raises \<^verbatim>\<open>IndexError\<close>.
\<close>

theorem split_trailing_delimiter_raises:
  "str_split ''a;'' '';'' = Inr [''a'', '''']
   \<and> split (Block_str 0 ''a;'' False (Some False)) (Block_str 2 '';'' False (Some False))
       = Inl IndexError"
  by (simp add: split_def str_split_def split_from.simps startswith_def call_def
      Block_str_def Block_init_def Char_init_def)

section \<open>Template compilation\<close>

text \<open>
  C4. Two templates that the claim calls malformed compile without an error. In
  \<^verbatim>\<open>H /%C %C/, /\<close> the same code occurs twice: the key is lowered to \<^verbatim>\<open>%c\<close> before
  \<^verbatim>\<open>self._raw_nmr_format.count(_key)\<close> is taken, the raw template holds no \<^verbatim>\<open>%c\<close>, and both
  items are accepted. In \<^verbatim>\<open>/%c/, / \<close> no character stands before the first slash: the check
  reads \<^verbatim>\<open>raw[-1]\<close>, the space at the end of the template.
\<close>

theorem duplicate_code_compiles:
  "(case Formatter_init (Block_str 0 ''H /%C %C/, /'' False (Some False)) 12 of
      Some (Inr fm) \<Rightarrow> map (\<lambda>b. (call b, variable b)) (sect (signals fm))
    | _ \<Rightarrow> [])
   = [(''%c'', Some True), ('' '', Some False), (''%c'', Some True)]
   \<and> (case Formatter_init (Block_str 0 ''/%c/, / '' False (Some False)) 8 of
      Some (Inr fm) \<Rightarrow> map (\<lambda>b. (call b, variable b)) (sect (signals fm))
    | _ \<Rightarrow> [])
   = [(''%c'', Some True)]"
  by code_simp

section \<open>Splicing\<close>

text \<open>
  C6. The template \<^verbatim>\<open>H /a*b*c/, /\<close> has the pieces \<^verbatim>\<open>a\<close>, \<^verbatim>\<open>b\<close> (optional) and \<^verbatim>\<open>c\<close>. In the
  hypothesis with all three, \<^verbatim>\<open>splice_blocks\<close> joins \<^verbatim>\<open>a\<close> and \<^verbatim>\<open>b\<close> and leaves
  \<^verbatim>\<open>Block('', variable=None)\<close> in the place of \<^verbatim>\<open>b\<close>; the flag of \<^verbatim>\<open>c\<close> is then compared with
  \<^verbatim>\<open>None\<close>, so \<^verbatim>\<open>c\<close> is not joined: the hypothesis is the two constant spans \<^verbatim>\<open>ab\<close> and \<^verbatim>\<open>c\<close>,
  consecutive and of equal \<open>variable\<close> flag.
\<close>

theorem splice_leaves_adjacent_constants:
  "(case Formatter_init (Block_str 0 ''H /a*b*c/, /'' False (Some False)) 12 of
      Some (Inr fm) \<Rightarrow>
        map (map (\<lambda>h. map (\<lambda>b. (call b, variable b)) (sect h))) (hypotheses fm)
    | _ \<Rightarrow> [])
   = [[[(''ab'', Some False), (''c'', Some False)]], [[(''ac'', Some False)]]]"
  by code_simp

section \<open>Matching\<close>

text \<open>
  C2. The template \<^verbatim>\<open>H /%c*a%ib**c*/, /\<close> against the record \<^verbatim>\<open>1a2bbbxcc\<close>. The fullest
  hypothesis (constants \<^verbatim>\<open>a\<close>, \<^verbatim>\<open>bc\<close>) is invalid. In the set with one optional piece no
  hypothesis is an exact match: the first (constants \<^verbatim>\<open>a\<close>, \<^verbatim>\<open>b\<close>) has the counts 1 and 3,
  total penalty 2; the second (constant \<^verbatim>\<open>c\<close>) has the count 2, total penalty 1. The
  matcher returns the first: \<open>scores\<close> is \<open>[0, 2, 1]\<close>, one entry per count, and the index of
  its minimum is taken as the index of the hypothesis.
\<close>

theorem match_returns_higher_penalty:
  "(case Formatter_init (Block_str 0 ''H /%c*a%ib**c*/, /'' False (Some False)) 18 of
      Some (Inr fm) \<Rightarrow>
        (map (map constants_str) (hypotheses fm),
         map (map (\<lambda>h. count_constants (Block_str 30 ''1a2bbbxcc'' False (Some False))
                          (constants_str h) [])) (hypotheses fm),
         map_sum id constants_str
           (match_hypothesis fm (Block_str 30 ''1a2bbbxcc'' False (Some False))))
    | _ \<Rightarrow> ([], [], Inl InputError))
   = ([[[''a'', ''bc'']], [[''a'', ''b''], [''c'']], [[]]],
      [[Inr None], [Inr (Some [1, 3]), Inr (Some [2])], [Inr (Some [])]],
      Inr [''a'', ''b''])"
  by code_simp






section \<open>Field extraction\<close>







section \<open>Record splitting\<close>










section \<open>Termination of the complex split\<close>

text \<open>
  The template \<^verbatim>\<open>H /a%c//\<close> has an empty delimiter, and every string contains the empty
  string, so its records are split on the complex path. On the text \<^verbatim>\<open>xay\<close> the first pass
  of the inner loop cuts an empty slice and removes nothing from the text: the progress
  check sets \<open>finished\<close>, both loops end, and the function returns the one empty slice. No
  direct split of the remaining text follows: \<^verbatim>\<open>split\<close> on this text and delimiter raises
  \<^verbatim>\<open>ValueError\<close>.
\<close>

theorem no_progress_returns_without_split:
  "(case Formatter_init (Block_str 0 ''H /a%c//'' False (Some False)) 9 of
      Some (Inr fm) \<Rightarrow>
        (call (delimiter fm),
         map call (constants (signals fm)),
         map_option (map_sum id (\<lambda>(t, s, f). (call t, map call s, f)))
           (cut_loop (hd (constants (signals fm))) (hd (constants (signals fm))) (delimiter fm)
              (Block_str 20 ''xay'' False (Some False)) []),
         map_option (map_sum id (map call))
           (split_into_signals fm 40 (Block_str 20 ''xay'' False (Some False))),
         map_sum id (map call) (split (Block_str 20 ''xay'' False (Some False)) (delimiter fm)))
    | _ \<Rightarrow> ([], [], None, None, Inr []))
   = ([], [''a''], Some (Inr (''xay'', [[]], True)), Some (Inr [[]]), Inl ValueError)"
  by code_simp

lemma str_find_count: "str_find s sub \<noteq> None \<Longrightarrow> 0 < str_count s sub"
proof (induction s sub rule: str_count.induct)
  case (1 s sub)
  show ?case
  proof (cases "sub = [] \<or> s = [] \<or> startswith s sub")
    case True
    with 1(3) show ?thesis by (subst str_count.simps) (auto split: if_splits)
  next
    case False
    then obtain c cs where s: "s = c # cs" by (cases s) auto
    with 1(3) False have "str_find (tl s) sub \<noteq> None" by auto
    with 1(2) False show ?thesis by (subst str_count.simps) simp
  qed
qed

lemma contains_str_empty: "chars b = [] \<Longrightarrow> contains_str tx (call b)"
  by (simp add: contains_str_def count_def call_def str_count.simps)

lemma str_contains_contains_str:
  "str_contains (call tx) s \<Longrightarrow> contains_str tx s"
  by (simp add: str_contains_def contains_str_def count_def str_find_count)

lemma takeWhile_index_le:
  "p < length xs \<Longrightarrow> length (takeWhile (\<lambda>y. y \<noteq> xs ! p) xs) \<le> p"
proof (induction xs arbitrary: p)
  case Nil
  then show ?case by simp
next
  case (Cons a xs)
  then show ?case by (cases p) auto
qed

lemma list_index_le: "p < length xs \<Longrightarrow> list_index xs (xs ! p) \<le> p"
  by (simp add: list_index_def takeWhile_index_le)

lemma takeWhile_index_eq:
  "q < length xs \<Longrightarrow> xs ! q = x \<Longrightarrow> \<forall>j<q. xs ! j \<noteq> x \<Longrightarrow>
   length (takeWhile (\<lambda>y. y \<noteq> x) xs) = q"
proof (induction xs arbitrary: q)
  case Nil
  then show ?case by simp
next
  case (Cons a xs)
  show ?case
  proof (cases q)
    case 0
    with Cons.prems show ?thesis by simp
  next
    case (Suc q')
    with Cons.prems have "a \<noteq> x" by auto
    moreover have "\<forall>j<q'. xs ! j \<noteq> x" using Cons.prems Suc by auto
    ultimately show ?thesis using Cons.IH [of q'] Cons.prems Suc by simp
  qed
qed

lemma list_index_eq:
  "q < length xs \<Longrightarrow> \<forall>j<q. xs ! j \<noteq> xs ! q \<Longrightarrow> list_index xs (xs ! q) = q"
  by (simp add: list_index_def takeWhile_index_eq)

lemma distinct_filter_nth:
  "distinct (filter P xs) \<Longrightarrow> i < j \<Longrightarrow> j < length xs \<Longrightarrow> P (xs ! j) \<Longrightarrow> xs ! i \<noteq> xs ! j"
proof (induction xs arbitrary: i j)
  case Nil
  then show ?case by simp
next
  case (Cons a xs)
  from Cons.prems obtain j' where j: "j = Suc j'" by (cases j) auto
  show ?case
  proof (cases i)
    case 0
    show ?thesis
    proof
      assume e: "(a # xs) ! i = (a # xs) ! j"
      with 0 j have a: "a = xs ! j'" by simp
      with Cons.prems j have "P a" by simp
      moreover have "xs ! j' \<in> set (filter P xs)" using Cons.prems j by simp
      ultimately show False using Cons.prems(1) a by simp
    qed
  next
    case (Suc i')
    have "distinct (filter P xs)" using Cons.prems(1) by (simp split: if_splits)
    from Cons.IH [OF this, of i' j'] Cons.prems j Suc show ?thesis by simp
  qed
qed

lemma l_anchor_loop_spec:
  assumes "1 \<le> i" and "i \<le> length cs" and "l = cs ! (i - 1)"
    and "\<forall>j<i - 1. \<not> contains_str tx (call (cs ! j))"
  shows "\<exists>p<length cs. l_anchor_loop cs tx l i = cs ! p
           \<and> (\<forall>j<p. \<not> contains_str tx (call (cs ! j)))
           \<and> (contains_str tx (call (cs ! p)) \<or> p = length cs - 1)"
  using assms
proof (induction cs tx l i rule: l_anchor_loop.induct)
  case (1 cs tx l i)
  show ?case
  proof (cases "\<not> contains_str tx (call l) \<and> i < length cs")
    case True
    have a: "\<forall>j<i + 1 - 1. \<not> contains_str tx (call (cs ! j))"
    proof (intro allI impI)
      fix j assume "j < i + 1 - 1"
      then have "j < i - 1 \<or> j = i - 1" using 1(2) by auto
      then show "\<not> contains_str tx (call (cs ! j))" using 1(4,5) True by auto
    qed
    have "\<exists>p<length cs. l_anchor_loop cs tx (cs ! i) (i + 1) = cs ! p
           \<and> (\<forall>j<p. \<not> contains_str tx (call (cs ! j)))
           \<and> (contains_str tx (call (cs ! p)) \<or> p = length cs - 1)"
      using 1(1) [OF True] True a by simp
    then show ?thesis using True by (subst l_anchor_loop.simps) simp
  next
    case False
    have "l_anchor_loop cs tx l i = l" using False by (subst l_anchor_loop.simps) auto
    moreover have "i - 1 < length cs" using 1(2,3) by auto
    moreover have "contains_str tx (call (cs ! (i - 1))) \<or> i - 1 = length cs - 1"
      using False 1(2,3,4) by auto
    ultimately show ?thesis using 1(4,5) by (intro exI [of _ "i - 1"]) simp
  qed
qed

lemma r_anchor_loop_found:
  assumes nd: "\<And>i j. i < j \<Longrightarrow> j < length cs \<Longrightarrow> chars (cs ! j) \<noteq> [] \<Longrightarrow> cs ! i \<noteq> cs ! j"
    and "p \<le> q" and "q < length cs" and "contains_str tx (call (cs ! p))"
    and "r = cs ! q" and "i = int q - int (length cs) - 1"
  shows "contains_str tx (call (r_anchor_loop cs tx (cs ! p) r i))"
  using assms(2-)
proof (induction q arbitrary: r i rule: less_induct)
  case (less q)
  show ?case
  proof (cases "contains_str tx (call r)")
    case True
    then show ?thesis by (subst r_anchor_loop.simps) simp
  next
    case False
    then have ne: "chars (cs ! q) \<noteq> []" using less.prems contains_str_empty by blast
    have pq: "p < q" using False less.prems by (cases "p = q") auto
    have "\<forall>j<q. cs ! j \<noteq> cs ! q" using nd ne less.prems by blast
    then have iq: "list_index cs (cs ! q) = q" using less.prems by (simp add: list_index_eq)
    have ip: "list_index cs (cs ! p) \<le> p" using pq less.prems by (simp add: list_index_le)
    have cond: "- int (length cs) \<le> i \<and> list_index cs (cs ! p) \<le> list_index cs r"
      using less.prems pq iq ip by simp
    have nxt: "nat (int (length cs) + i) = q - 1" using less.prems pq by simp
    have "contains_str tx (call (r_anchor_loop cs tx (cs ! p) (cs ! (q - 1)) (i - 1)))"
      using less.IH [of "q - 1" "cs ! (q - 1)" "i - 1"] less.prems pq by simp
    then show ?thesis using False cond nxt by (subst r_anchor_loop.simps) simp
  qed
qed

lemma r_anchor_loop_in_set:
  "r \<in> set cs \<Longrightarrow> i < 0 \<Longrightarrow> r_anchor_loop cs tx l r i \<in> set cs"
proof (induction cs tx l r i rule: r_anchor_loop.induct)
  case (1 cs tx l r i)
  show ?case
  proof (cases "\<not> contains_str tx (call r) \<and> - int (length cs) \<le> i
         \<and> list_index cs l \<le> list_index cs r")
    case True
    then have "nat (int (length cs) + i) < length cs" using 1(3) by linarith
    then have "cs ! nat (int (length cs) + i) \<in> set cs" by simp
    from 1(1) [OF True this] 1(3) True show ?thesis
      by (subst r_anchor_loop.simps) simp
  next
    case False
    then show ?thesis using 1(2) by (subst r_anchor_loop.simps) auto
  qed
qed

lemma anchors_together:
  assumes nd: "distinct (filter (\<lambda>b. chars b \<noteq> []) cs)" and ne: "cs \<noteq> []"
  shows "contains_str tx (call (l_anchor_loop cs tx (cs ! 0) 1))
       = contains_str tx
           (call (r_anchor_loop cs tx (l_anchor_loop cs tx (cs ! 0) 1)
              (cs ! (length cs - 1)) (- 2)))"
proof -
  let ?l = "l_anchor_loop cs tx (cs ! 0) 1"
  have "\<exists>p<length cs. ?l = cs ! p
           \<and> (\<forall>j<p. \<not> contains_str tx (call (cs ! j)))
           \<and> (contains_str tx (call (cs ! p)) \<or> p = length cs - 1)"
    using ne by (intro l_anchor_loop_spec) (auto simp: Suc_leI)
  then obtain p where p: "p < length cs" "?l = cs ! p"
    "\<forall>j<p. \<not> contains_str tx (call (cs ! j))"
    "contains_str tx (call (cs ! p)) \<or> p = length cs - 1" by blast
  have nd': "\<And>i j. i < j \<Longrightarrow> j < length cs \<Longrightarrow> chars (cs ! j) \<noteq> [] \<Longrightarrow> cs ! i \<noteq> cs ! j"
    using distinct_filter_nth [OF nd] by blast
  show ?thesis
  proof (cases "contains_str tx (call ?l)")
    case True
    have "contains_str tx
            (call (r_anchor_loop cs tx (cs ! p) (cs ! (length cs - 1)) (- 2)))"
      using p True ne by (intro r_anchor_loop_found [OF nd', of p "length cs - 1"]) auto
    then show ?thesis using True p by simp
  next
    case False
    then have "\<forall>j<length cs. \<not> contains_str tx (call (cs ! j))"
      using p by (metis Suc_pred' length_greater_0_conv less_Suc_eq ne)
    then have all: "\<forall>b\<in>set cs. \<not> contains_str tx (call b)"
      by (metis in_set_conv_nth)
    have "r_anchor_loop cs tx ?l (cs ! (length cs - 1)) (- 2) \<in> set cs"
      using ne by (intro r_anchor_loop_in_set) auto
    then show ?thesis using False all by blast
  qed
qed

lemma drop_shorter: "drop n xs \<noteq> xs \<Longrightarrow> length (drop n xs) < length xs"
  by (cases "n = 0"; cases "xs = []") auto

lemma cut_loop_terminates:
  "\<exists>res. cut_loop l r dl tx sigs = Some res \<and>
     (\<forall>t1 s1 f1. res = Inr (t1, s1, f1) \<longrightarrow>
        length (chars t1) \<le> length (chars tx) \<and>
        (contains_str tx (call l) \<and> contains_str tx (call r) \<and> contains_str tx (call dl)
           \<longrightarrow> f1 \<or> length (chars t1) < length (chars tx)))"
proof (induction "length (chars tx)" arbitrary: tx sigs rule: less_induct)
  case less
  show ?case
  proof (cases "contains_str tx (call l) \<and> contains_str tx (call r)
                \<and> contains_str tx (call dl)")
    case False
    then show ?thesis by (subst cut_loop.simps) auto
  next
    case True
    show ?thesis
    proof (cases "cut_signal l r dl tx")
      case (Inl e)
      then show ?thesis using True by (subst cut_loop.simps) simp
    next
      case (Inr sg)
      let ?n = "length (chars sg) + length (chars dl)"
      let ?t = "Block_init (drop ?n (chars tx)) False (Some False)"
      show ?thesis
      proof (cases "drop ?n (chars tx) = chars tx")
        case same: True
        then show ?thesis using True Inr
          by (subst cut_loop.simps) (simp add: Block_init_def)
      next
        case diff: False
        then have lt: "length (chars ?t) < length (chars tx)"
          using drop_shorter [OF diff] by (simp add: Block_init_def)
        from less.hyps [OF lt, of "sigs @ [sg]"] obtain res where
          res: "cut_loop l r dl ?t (sigs @ [sg]) = Some res"
          and b: "\<forall>t1 s1 f1. res = Inr (t1, s1, f1) \<longrightarrow> length (chars t1) \<le> length (chars ?t)"
          by blast
        have "cut_loop l r dl tx sigs = Some res"
          using True Inr diff res by (subst cut_loop.simps) (simp add: Block_init_def)
        then show ?thesis using b lt by auto
      qed
    qed
  qed
qed

lemma complex_loop_terminates:
  assumes nd: "distinct (filter (\<lambda>b. chars b \<noteq> []) (constants (signals fm)))"
  shows "\<exists>res. complex_loop fm dl tx sigs finished = Some res"
proof (induction "length (chars tx)" arbitrary: tx sigs finished rule: less_induct)
  case less
  let ?cs = "constants (signals fm)"
  have fin: "\<And>t s. complex_loop fm dl t s True = Some (Inr s)"
    by (subst complex_loop.simps) simp
  show ?case
  proof (cases "\<not> finished \<and> chars tx \<noteq> []")
    case False
    then show ?thesis by (subst complex_loop.simps) auto
  next
    case go: True
    show ?thesis
    proof (cases "?cs = []")
      case True
      then show ?thesis using go by (subst complex_loop.simps) (simp add: getitem_def)
    next
      case ne: False
      have l0: "getitem ?cs 0 = Inr (?cs ! 0)" using ne by (simp add: getitem_def)
      have r0: "getitem ?cs (- 1) = Inr (?cs ! (length ?cs - 1))"
        using ne by (cases "constants (signals fm)") (auto simp: getitem_def)
      let ?l = "l_anchor_loop ?cs tx (?cs ! 0) 1"
      let ?r = "r_anchor_loop ?cs tx ?l (?cs ! (length ?cs - 1)) (- 2)"
      let ?C = "(\<not> contains_str tx (call ?l) \<and> \<not> contains_str tx (call ?r))
               \<or> (?l = dl \<and> ?r = dl) \<or> \<not> str_contains (call tx) (call dl)"
      let ?A = "case split tx dl of
                  Inl e \<Rightarrow> Some (Inl e)
                | Inr ss \<Rightarrow> complex_loop fm dl tx (sigs @ ss) True"
      let ?B = "case cut_loop ?l ?r dl tx sigs of
                  None \<Rightarrow> None
                | Some (Inl e) \<Rightarrow> Some (Inl e)
                | Some (Inr (text1, sigs1, finished1)) \<Rightarrow>
                    complex_loop fm dl text1 sigs1 finished1"
      have step: "complex_loop fm dl tx sigs finished = (if ?C then ?A else ?B)"
        by (subst complex_loop.simps) (simp only: go l0 r0 Let_def if_True sum.case simp_thms)
      have tog: "contains_str tx (call ?l) = contains_str tx (call ?r)"
        by (rule anchors_together [OF nd ne])
      show ?thesis
      proof (cases ?C)
        case True
        have "complex_loop fm dl tx sigs finished = ?A"
          by (simp only: step if_P [OF True])
        then show ?thesis using fin by (cases "split tx dl") simp_all
      next
        case False
        have eq: "complex_loop fm dl tx sigs finished = ?B"
          by (simp only: step if_not_P [OF False])
        from False have c: "contains_str tx (call ?l) \<and> contains_str tx (call ?r)
                      \<and> contains_str tx (call dl)"
          using tog str_contains_contains_str by auto
        from cut_loop_terminates [of ?l ?r dl tx sigs] obtain res where
          res: "cut_loop ?l ?r dl tx sigs = Some res"
          and pr: "\<forall>t1 s1 f1. res = Inr (t1, s1, f1) \<longrightarrow>
                     f1 \<or> length (chars t1) < length (chars tx)"
          using c by blast
        show ?thesis
        proof (cases res)
          case (Inl e)
          then show ?thesis using eq res by simp
        next
          case (Inr x)
          obtain t1 s1 f1 where x: "x = (t1, s1, f1)" by (cases x) auto
          have "\<exists>res'. complex_loop fm dl t1 s1 f1 = Some res'"
          proof (cases f1)
            case True
            then show ?thesis using fin by simp
          next
            case f: False
            then have "length (chars t1) < length (chars tx)" using pr Inr x by blast
            then show ?thesis by (rule less.hyps)
          qed
          then show ?thesis using eq res Inr x by simp
        qed
      qed
    qed
  qed
qed

text \<open>
  C8, as the code has it. Python compares \<^verbatim>\<open>Char\<close> objects by identity, so in a compiled
  template two constant spans that are not empty are never equal; that is the assumption.
  Then \<^verbatim>\<open>complex_parse_into_signals\<close> returns (a list of record spans or an exception) on
  every delimiter \<open>dl\<close> and text \<open>tx\<close>. The inner loop always ends, and when its condition
  holds at the start it ends with the flag \<open>finished\<close> set by the progress check or with a
  remaining text that is strictly shorter. With \<open>finished\<close> set, the outer loop returns the
  record spans collected so far: no direct split of the remaining text is made.
\<close>

theorem complex_parse_terminates:
  assumes "distinct (filter (\<lambda>b. chars b \<noteq> []) (constants (signals fm)))"
  shows "(\<exists>res. complex_parse_into_signals fm dl tx = Some res)
       \<and> (\<exists>res. cut_loop l r dl tx sigs = Some res \<and>
            (\<forall>t1 s1 f1. res = Inr (t1, s1, f1) \<longrightarrow>
               length (chars t1) \<le> length (chars tx) \<and>
               (contains_str tx (call l) \<and> contains_str tx (call r)
                  \<and> contains_str tx (call dl)
                \<longrightarrow> f1 \<or> length (chars t1) < length (chars tx))))
       \<and> complex_loop fm dl tx sigs True = Some (Inr sigs)"
proof -
  have "complex_loop fm dl tx sigs True = Some (Inr sigs)"
    by (subst complex_loop.simps) simp
  then show ?thesis
    using complex_loop_terminates [OF assms] cut_loop_terminates
    unfolding complex_parse_into_signals_def by blast
qed

theorem complex_parse_terminates_witness:
  "(case Formatter_init (Block_str 0 ''H /%c, %a/, /'' False (Some False)) 13 of
      Some (Inr fm) \<Rightarrow>
        distinct (filter (\<lambda>b. chars b \<noteq> []) (constants (signals fm)))
        \<and> (\<exists>res. complex_parse_into_signals fm (delimiter fm)
                    (Block_str 20 ''1, x, 2, y'' False (Some False)) = Some res)
    | _ \<Rightarrow> False)"
proof -
  have d: "(case Formatter_init (Block_str 0 ''H /%c, %a/, /'' False (Some False)) 13 of
      Some (Inr fm) \<Rightarrow> distinct (filter (\<lambda>b. chars b \<noteq> []) (constants (signals fm)))
    | _ \<Rightarrow> False)"
    by code_simp
  then obtain fm where
    fm: "Formatter_init (Block_str 0 ''H /%c, %a/, /'' False (Some False)) 13 = Some (Inr fm)"
    by (auto split: option.splits sum.splits)
  with d have "distinct (filter (\<lambda>b. chars b \<noteq> []) (constants (signals fm)))" by simp
  from this complex_parse_terminates [OF this] fm show ?thesis by simp
qed

end
